theory Spec2Isabelle
  imports
    Main
    "HOL-Library.Char_ord"
    "HOL-Library.List_Lexorder"
    "HOL-Library.Product_Lexorder"
    "HOL-Library.Multiset"
    "HOL-Library.Sublist"
    "HOL-Library.State_Monad"
begin

section \<open>Data model of \<^verbatim>\<open>semgrep_report.py\<close>\<close>

text \<open>
  A JSON value as \<^verbatim>\<open>json.load\<close> returns it and \<^verbatim>\<open>json.dumps\<close> takes it. It is used for
  the parts of the document the program passes through without reading (\<^verbatim>\<open>errors\<close>,
  \<^verbatim>\<open>time\<close>) and for the payloads handed to \<^verbatim>\<open>json.dumps\<close>. Numbers are integers (line
  numbers); a dict is an association list in insertion order.
\<close>

datatype json =
    JNull
  | JBool bool
  | JInt int
  | JStr string
  | JList "json list"
  | JObj "(string \<times> json) list"

text \<open>
  The exceptions of the pipeline: \<^verbatim>\<open>KeyError(key)\<close> of a subscript \<^verbatim>\<open>d[key]\<close>, and what
  \<^verbatim>\<open>open\<close> and \<^verbatim>\<open>json.load\<close> raise in \<^verbatim>\<open>generate_report\<close>.
\<close>

datatype error = KeyError string | OSError | JSONDecodeError

text \<open>
  \<^verbatim>\<open>@dataclass class Finding\<close>, with the field types the class declares. Strings are byte
  sequences (UTF-8), whose lexicographic order is the order of Python's \<^verbatim>\<open>str\<close> by code
  point.
\<close>

record finding =
  check_id :: string
  path :: string
  start_line :: int
  end_line :: int
  severity :: string
  confidence :: string
  message :: string
  category :: string
  technology :: "string list"
  cwe :: "string list"
  owasp :: "string list"
  references :: "string list"
  shortlink :: "string option"
  lines :: "string option"
  fingerprint :: "string option"

text \<open>\<^verbatim>\<open>@dataclass class SemgrepReport\<close>.\<close>

record semgrep_report =
  version :: string
  findings :: "finding list"
  errors :: "json list"
  scanned_paths :: "string list"
  total_files_scanned :: nat
  scan_time :: "json option"

text \<open>
  The input document is the \<^verbatim>\<open>Dict[str, Any]\<close> that \<^verbatim>\<open>json.load\<close> returns. Each dict the
  parser reads is a record with one optional field per key it reads: \<open>None\<close> is a key
  that is absent from the dict, \<open>Some v\<close> a key that is present. A present key holds a
  value of the type of the dataclass field it is stored in (\<^verbatim>\<open>check_id: str\<close>,
  \<^verbatim>\<open>start_line: int\<close>, \<^verbatim>\<open>technology: List[str]\<close>, ...); keys the parser never reads are
  left out. For the three \<^verbatim>\<open>Optional[str]\<close> fields, read with \<^verbatim>\<open>.get(key)\<close>, a JSON
  \<^verbatim>\<open>null\<close> and an absent key both give \<^verbatim>\<open>None\<close>. Documents that hold a value of another
  type at one of these keys (Python would carry it along unchecked) are not covered.
\<close>

record position_dict =
  pos_line :: "int option"

record metadata_dict =
  metadata_confidence :: "string option"
  metadata_category :: "string option"
  metadata_technology :: "string list option"
  metadata_cwe :: "string list option"
  metadata_owasp :: "string list option"
  metadata_references :: "string list option"
  metadata_shortlink :: "string option"

record extra_dict =
  extra_message :: "string option"
  extra_severity :: "string option"
  extra_lines :: "string option"
  extra_fingerprint :: "string option"
  extra_metadata :: "metadata_dict option"

record result_dict =
  result_check_id :: "string option"
  result_path :: "string option"
  result_start :: "position_dict option"
  result_end :: "position_dict option"
  result_extra :: "extra_dict option"

record paths_dict =
  paths_scanned :: "string list option"

record data_dict =
  data_version :: "string option"
  data_errors :: "json list option"
  data_paths :: "paths_dict option"
  data_time :: "json option"
  data_results :: "result_dict list option"

text \<open>The empty dict \<^verbatim>\<open>{}\<close> at each of these types.\<close>

definition empty_metadata :: metadata_dict where
  "empty_metadata =
     \<lparr>metadata_confidence = None, metadata_category = None, metadata_technology = None,
      metadata_cwe = None, metadata_owasp = None, metadata_references = None,
      metadata_shortlink = None\<rparr>"

definition empty_extra :: extra_dict where
  "empty_extra =
     \<lparr>extra_message = None, extra_severity = None, extra_lines = None,
      extra_fingerprint = None, extra_metadata = None\<rparr>"

definition empty_paths :: paths_dict where
  "empty_paths = \<lparr>paths_scanned = None\<rparr>"

text \<open>\<^verbatim>\<open>d.get(key, default)\<close>: never raises.\<close>

definition dict_get :: "'a option \<Rightarrow> 'a \<Rightarrow> 'a" where
  "dict_get v d = (case v of None \<Rightarrow> d | Some x \<Rightarrow> x)"

text \<open>\<^verbatim>\<open>d[key]\<close>: raises \<^verbatim>\<open>KeyError(key)\<close> when the key is absent.\<close>

definition getitem :: "string \<Rightarrow> 'a option \<Rightarrow> error + 'a" where
  "getitem k v = (case v of None \<Rightarrow> Inl (KeyError k) | Some x \<Rightarrow> Inr x)"

section \<open>Finding: the two rank properties\<close>

text \<open>\<^verbatim>\<open>order = {"ERROR": 0, "WARNING": 1, "INFO": 2}; return order.get(self.severity, 3)\<close>\<close>

definition severity_order :: "finding \<Rightarrow> int" where
  "severity_order self =
     dict_get (map_of [(''ERROR'', 0), (''WARNING'', 1), (''INFO'', 2)] (severity self)) 3"

text \<open>\<^verbatim>\<open>order = {"HIGH": 0, "MEDIUM": 1, "LOW": 2}; return order.get(self.confidence, 3)\<close>\<close>

definition confidence_order :: "finding \<Rightarrow> int" where
  "confidence_order self =
     dict_get (map_of [(''HIGH'', 0), (''MEDIUM'', 1), (''LOW'', 2)] (confidence self)) 3"

section \<open>Parser\<close>

text \<open>
  \<^verbatim>\<open>_parse_finding\<close>. The arguments of \<^verbatim>\<open>Finding(...)\<close> are evaluated in the order they are
  written, so the first absent key among \<^verbatim>\<open>check_id\<close>, \<^verbatim>\<open>path\<close>, \<^verbatim>\<open>start\<close>, \<^verbatim>\<open>line\<close>,
  \<^verbatim>\<open>end\<close>, \<^verbatim>\<open>line\<close>, \<^verbatim>\<open>message\<close> is the one the \<^verbatim>\<open>KeyError\<close> names; the \<^verbatim>\<open>.get\<close> calls
  in between cannot raise.
\<close>

definition parse_finding :: "result_dict \<Rightarrow> error + finding" where
  "parse_finding result =
     (let extra = dict_get (result_extra result) empty_extra;
          metadata = dict_get (extra_metadata extra) empty_metadata
      in case getitem ''check_id'' (result_check_id result) of Inl e \<Rightarrow> Inl e | Inr v_check_id \<Rightarrow>
         case getitem ''path'' (result_path result) of Inl e \<Rightarrow> Inl e | Inr v_path \<Rightarrow>
         case getitem ''start'' (result_start result) of Inl e \<Rightarrow> Inl e | Inr v_start \<Rightarrow>
         case getitem ''line'' (pos_line v_start) of Inl e \<Rightarrow> Inl e | Inr v_start_line \<Rightarrow>
         case getitem ''end'' (result_end result) of Inl e \<Rightarrow> Inl e | Inr v_end \<Rightarrow>
         case getitem ''line'' (pos_line v_end) of Inl e \<Rightarrow> Inl e | Inr v_end_line \<Rightarrow>
         case getitem ''message'' (extra_message extra) of Inl e \<Rightarrow> Inl e | Inr v_message \<Rightarrow>
         Inr \<lparr>check_id = v_check_id,
              path = v_path,
              start_line = v_start_line,
              end_line = v_end_line,
              severity = dict_get (extra_severity extra) ''UNKNOWN'',
              confidence = dict_get (metadata_confidence metadata) ''UNKNOWN'',
              message = v_message,
              category = dict_get (metadata_category metadata) ''unknown'',
              technology = dict_get (metadata_technology metadata) [],
              cwe = dict_get (metadata_cwe metadata) [],
              owasp = dict_get (metadata_owasp metadata) [],
              references = dict_get (metadata_references metadata) [],
              shortlink = metadata_shortlink metadata,
              lines = extra_lines extra,
              fingerprint = extra_fingerprint extra\<rparr>)"

text \<open>
  The loop \<^verbatim>\<open>for result in data.get("results", []): report.findings.append(...)\<close>; an
  exception of \<^verbatim>\<open>_parse_finding\<close> leaves the loop and the function.
\<close>

fun parse_loop :: "result_dict list \<Rightarrow> semgrep_report \<Rightarrow> error + semgrep_report" where
  "parse_loop [] report = Inr report"
| "parse_loop (result # rest) report =
     (case parse_finding result of
        Inl e \<Rightarrow> Inl e
      | Inr f \<Rightarrow> parse_loop rest (report\<lparr>findings := findings report @ [f]\<rparr>))"

text \<open>
  \<^verbatim>\<open>findings.sort(key=lambda f: (f.severity_order, f.path, f.start_line))\<close>. Python's
  \<^verbatim>\<open>list.sort\<close> is a stable sort, tuples compare lexicographically; \<open>sort_key\<close> is the
  stable insertion sort of the list library, and a stable sort by a key has one result.
\<close>

definition sort_findings :: "finding list \<Rightarrow> finding list" where
  "sort_findings fs = sort_key (\<lambda>f. (severity_order f, path f, start_line f)) fs"

text \<open>\<^verbatim>\<open>_parse_semgrep_data\<close>\<close>

definition parse_semgrep_data :: "data_dict \<Rightarrow> error + semgrep_report" where
  "parse_semgrep_data data =
     (let report =
            \<lparr>version = dict_get (data_version data) ''unknown'',
             findings = [],
             errors = dict_get (data_errors data) [],
             scanned_paths = dict_get (paths_scanned (dict_get (data_paths data) empty_paths)) [],
             total_files_scanned =
               length (dict_get (paths_scanned (dict_get (data_paths data) empty_paths)) []),
             scan_time = Some (dict_get (data_time data) (JObj []))\<rparr>
      in case parse_loop (dict_get (data_results data) []) report of
           Inl e \<Rightarrow> Inl e
         | Inr report' \<Rightarrow> Inr (report'\<lparr>findings := sort_findings (findings report')\<rparr>))"

section \<open>Aggregator\<close>

text \<open>
  \<^verbatim>\<open>collections.Counter\<close> is a dict, so it keeps its keys in insertion order: counting an
  element that is already a key updates the count where it stands, a new element is
  appended with count 1.
\<close>

fun counter_incr :: "'a \<Rightarrow> ('a \<times> nat) list \<Rightarrow> ('a \<times> nat) list" where
  "counter_incr x [] = [(x, 1)]"
| "counter_incr x ((k, c) # kcs) =
     (if k = x then (k, c + 1) # kcs else (k, c) # counter_incr x kcs)"

definition Counter :: "'a list \<Rightarrow> ('a \<times> nat) list" where
  "Counter xs = fold counter_incr xs []"

text \<open>
  \<^verbatim>\<open>Counter.most_common(n)\<close> is \<^verbatim>\<open>heapq.nlargest(n, self.items(), key=itemgetter(1))\<close>, which
  is \<^verbatim>\<open>sorted(items, key=itemgetter(1), reverse=True)[:n]\<close>: descending by count, items of
  equal count in the order of the dict.
\<close>

definition most_common :: "nat \<Rightarrow> ('a \<times> nat) list \<Rightarrow> ('a \<times> nat) list" where
  "most_common n items = take n (sort_key (\<lambda>kc. - int (snd kc)) items)"

text \<open>The dict that \<^verbatim>\<open>summary_stats\<close> returns.\<close>

record stats =
  total_findings :: nat
  total_errors :: nat
  files_scanned :: nat
  files_affected :: nat
  severity_breakdown :: "(string \<times> nat) list"
  confidence_breakdown :: "(string \<times> nat) list"
  category_breakdown :: "(string \<times> nat) list"
  top_issues :: "(string \<times> nat) list"

text \<open>
  \<^verbatim>\<open>SemgrepReport.summary_stats\<close>, as a computation on the report it is a property of: each
  statement reads \<^verbatim>\<open>self\<close> through \<open>State_Monad.get\<close>, and the state after the
  computation is the report after the call.
\<close>

definition summary_stats_m :: "(semgrep_report, stats) state" where
  "summary_stats_m = do {
     self \<leftarrow> State_Monad.get;
     let severity_counts = Counter (map severity (findings self));
     self \<leftarrow> State_Monad.get;
     let confidence_counts = Counter (map confidence (findings self));
     self \<leftarrow> State_Monad.get;
     let category_counts = Counter (map category (findings self));
     self \<leftarrow> State_Monad.get;
     let files_affected = card (set (map path (findings self)));
     self \<leftarrow> State_Monad.get;
     let check_id_counts = Counter (map check_id (findings self));
     let top_issues = most_common 5 check_id_counts;
     self \<leftarrow> State_Monad.get;
     State_Monad.return
       \<lparr>total_findings = length (findings self),
        total_errors = length (errors self),
        files_scanned = total_files_scanned self,
        files_affected = files_affected,
        severity_breakdown = severity_counts,
        confidence_breakdown = confidence_counts,
        category_breakdown = category_counts,
        top_issues = top_issues\<rparr>
   }"

definition summary_stats :: "semgrep_report \<Rightarrow> stats" where
  "summary_stats self = fst (run_state summary_stats_m self)"

section \<open>Serialized payloads and the output file\<close>

text \<open>The dict built for each finding in \<^verbatim>\<open>_generate_html\<close>, as the value given to \<^verbatim>\<open>json.dumps\<close>.\<close>

definition optional_str :: "string option \<Rightarrow> json" where
  "optional_str v = (case v of None \<Rightarrow> JNull | Some s \<Rightarrow> JStr s)"

definition finding_dict :: "finding \<Rightarrow> json" where
  "finding_dict f =
     JObj [(''check_id'', JStr (check_id f)),
           (''path'', JStr (path f)),
           (''start_line'', JInt (start_line f)),
           (''end_line'', JInt (end_line f)),
           (''severity'', JStr (severity f)),
           (''confidence'', JStr (confidence f)),
           (''message'', JStr (message f)),
           (''category'', JStr (category f)),
           (''technology'', JList (map JStr (technology f))),
           (''cwe'', JList (map JStr (cwe f))),
           (''owasp'', JList (map JStr (owasp f))),
           (''references'', JList (map JStr (references f))),
           (''shortlink'', optional_str (shortlink f)),
           (''lines'', optional_str (lines f)),
           (''fingerprint'', optional_str (fingerprint f))]"

text \<open>
  \<^verbatim>\<open>template_data\<close> of \<^verbatim>\<open>_generate_html\<close>: \<open>findings_json\<close> and \<open>errors_json\<close> hold the
  values that \<^verbatim>\<open>json.dumps\<close> serializes.
\<close>

record template_data =
  td_report :: semgrep_report
  td_stats :: stats
  findings_json :: json
  errors_json :: json
  generated_at :: string

text \<open>
  \<^verbatim>\<open>_generate_html\<close>. \<open>make_template_data\<close> is the dict \<^verbatim>\<open>template_data\<close> it builds;
  the serializer, the template substitution and the chart are the parameter \<open>render\<close>,
  the clock is \<open>now\<close>.
\<close>

definition make_template_data :: "string \<Rightarrow> semgrep_report \<Rightarrow> template_data" where
  "make_template_data now report =
     (let stats = summary_stats report
      in \<lparr>td_report = report,
          td_stats = stats,
          findings_json = JList (map finding_dict (findings report)),
          errors_json = JList (errors report),
          generated_at = now\<rparr>)"

definition generate_html :: "(template_data \<Rightarrow> string) \<Rightarrow> string \<Rightarrow> semgrep_report \<Rightarrow> string" where
  "generate_html render now report = render (make_template_data now report)"

text \<open>
  \<^verbatim>\<open>generate_report\<close> on a file system that maps a path to the content of the file there.
  \<open>json_load\<close> is \<^verbatim>\<open>json.load\<close>. The output file is opened only after the report is parsed
  and the HTML is generated.
\<close>

definition generate_report ::
  "(string \<Rightarrow> error + data_dict) \<Rightarrow> (template_data \<Rightarrow> string) \<Rightarrow> string \<Rightarrow>
   (string \<rightharpoonup> string) \<Rightarrow> string \<Rightarrow> string \<Rightarrow> (error + unit) \<times> (string \<rightharpoonup> string)" where
  "generate_report json_load render now fs json_file output_file =
     (case fs json_file of
        None \<Rightarrow> (Inl OSError, fs)
      | Some text \<Rightarrow>
          (case json_load text of
             Inl e \<Rightarrow> (Inl e, fs)
           | Inr data \<Rightarrow>
               (case parse_semgrep_data data of
                  Inl e \<Rightarrow> (Inl e, fs)
                | Inr report \<Rightarrow>
                    (let html_content = generate_html render now report
                     in (Inr (), fs(output_file \<mapsto> html_content))))))"

section \<open>Notions the properties are stated with\<close>

text \<open>The distinct values of a sequence, in the order of their first occurrence.\<close>

primrec first_seen :: "'a list \<Rightarrow> 'a list" where
  "first_seen [] = []"
| "first_seen (x # xs) = x # removeAll x (first_seen xs)"

text \<open>
  A result record lacks a required field: one of \<^verbatim>\<open>check_id\<close>, \<^verbatim>\<open>path\<close>, \<^verbatim>\<open>start.line\<close>,
  \<^verbatim>\<open>end.line\<close>, \<^verbatim>\<open>extra.message\<close> cannot be reached in it.
\<close>

definition missing_required :: "result_dict \<Rightarrow> bool" where
  "missing_required r \<longleftrightarrow>
     result_check_id r = None \<or> result_path r = None \<or>
     Option.bind (result_start r) pos_line = None \<or>
     Option.bind (result_end r) pos_line = None \<or>
     Option.bind (result_extra r) extra_message = None"

text \<open>
  The key whose subscript fails first in a record, on the way to the required fields in
  the order \<^verbatim>\<open>check_id\<close>, \<^verbatim>\<open>path\<close>, \<^verbatim>\<open>start.line\<close>, \<^verbatim>\<open>end.line\<close>, \<^verbatim>\<open>extra.message\<close>.
\<close>

definition missing_key :: "result_dict \<Rightarrow> string option" where
  "missing_key r =
     (if result_check_id r = None then Some ''check_id''
      else if result_path r = None then Some ''path''
      else if result_start r = None then Some ''start''
      else if Option.bind (result_start r) pos_line = None then Some ''line''
      else if result_end r = None then Some ''end''
      else if Option.bind (result_end r) pos_line = None then Some ''line''
      else if Option.bind (result_extra r) extra_message = None then Some ''message''
      else None)"

text \<open>
  The required fields as the input record holds them, and as an entry of the serialized
  findings holds them, both as JSON values (\<open>None\<close>: not there).
\<close>

definition input_required :: "result_dict \<Rightarrow> json option list" where
  "input_required r =
     [map_option JStr (result_check_id r),
      map_option JStr (result_path r),
      map_option JInt (Option.bind (result_start r) pos_line),
      map_option JInt (Option.bind (result_end r) pos_line),
      map_option JStr (Option.bind (result_extra r) extra_message)]"

definition payload_required :: "json \<Rightarrow> json option list" where
  "payload_required entry =
     (case entry of
        JObj kvs \<Rightarrow>
          map (map_of kvs) [''check_id'', ''path'', ''start_line'', ''end_line'', ''message'']
      | _ \<Rightarrow> [])"

text \<open>The elements of a JSON array.\<close>

definition json_elements :: "json \<Rightarrow> json list" where
  "json_elements v = (case v of JList vs \<Rightarrow> vs | _ \<Rightarrow> [])"

section \<open>Sample inputs\<close>

text \<open>
  A result record with every required field, a severity and no \<^verbatim>\<open>metadata\<close> key; the same
  record without \<^verbatim>\<open>extra.message\<close>; a document holding given results, errors and scanned
  paths; a finding; a report.
\<close>

definition sample_result :: "string \<Rightarrow> string \<Rightarrow> int \<Rightarrow> string \<Rightarrow> result_dict" where
  "sample_result c p n s =
     \<lparr>result_check_id = Some c, result_path = Some p,
      result_start = Some \<lparr>pos_line = Some n\<rparr>, result_end = Some \<lparr>pos_line = Some (n + 1)\<rparr>,
      result_extra = Some \<lparr>extra_message = Some ''found'', extra_severity = Some s,
                            extra_lines = None, extra_fingerprint = None,
                            extra_metadata = None\<rparr>\<rparr>"

definition sample_no_message :: "string \<Rightarrow> string \<Rightarrow> int \<Rightarrow> string \<Rightarrow> result_dict" where
  "sample_no_message c p n s =
     \<lparr>result_check_id = Some c, result_path = Some p,
      result_start = Some \<lparr>pos_line = Some n\<rparr>, result_end = Some \<lparr>pos_line = Some (n + 1)\<rparr>,
      result_extra = Some \<lparr>extra_message = None, extra_severity = Some s,
                            extra_lines = None, extra_fingerprint = None,
                            extra_metadata = None\<rparr>\<rparr>"

definition sample_data :: "result_dict list \<Rightarrow> data_dict" where
  "sample_data rs =
     \<lparr>data_version = Some ''1.50.0'',
      data_errors = Some [JObj [(''type'', JStr ''Timeout''), (''path'', JStr ''a.py'')], JObj []],
      data_paths = Some \<lparr>paths_scanned = Some [''a.py'', ''b.py'', ''c.py'']\<rparr>,
      data_time = None,
      data_results = Some rs\<rparr>"

definition sample_finding :: "string \<Rightarrow> string \<Rightarrow> int \<Rightarrow> string \<Rightarrow> string \<Rightarrow> finding" where
  "sample_finding c p n s cf =
     \<lparr>check_id = c, path = p, start_line = n, end_line = n + 1, severity = s,
      confidence = cf, message = ''found'', category = ''security'', technology = [],
      cwe = [], owasp = [], references = [], shortlink = None, lines = None,
      fingerprint = None\<rparr>"

definition sample_report :: "finding list \<Rightarrow> semgrep_report" where
  "sample_report fs =
     \<lparr>version = ''1.50.0'', findings = fs, errors = [JObj []],
      scanned_paths = [''a.py'', ''b.py''], total_files_scanned = 2,
      scan_time = Some (JObj [])\<rparr>"

text \<open>A report with eight findings and six distinct rules.\<close>

definition sample_eight :: semgrep_report where
  "sample_eight = sample_report
     [sample_finding ''a'' ''x.py'' 1 ''ERROR'' ''LOW'',
      sample_finding ''b'' ''x.py'' 2 ''ERROR'' ''LOW'',
      sample_finding ''b'' ''x.py'' 3 ''ERROR'' ''LOW'',
      sample_finding ''c'' ''x.py'' 4 ''ERROR'' ''LOW'',
      sample_finding ''d'' ''x.py'' 5 ''ERROR'' ''LOW'',
      sample_finding ''e'' ''x.py'' 6 ''ERROR'' ''LOW'',
      sample_finding ''f'' ''x.py'' 7 ''ERROR'' ''LOW'',
      sample_finding ''c'' ''x.py'' 8 ''ERROR'' ''LOW'']"

section \<open>Files affected\<close>

lemma summary_stats_eq:
  "summary_stats self =
     \<lparr>total_findings = length (findings self),
      total_errors = length (errors self),
      files_scanned = total_files_scanned self,
      files_affected = card (set (map path (findings self))),
      severity_breakdown = Counter (map severity (findings self)),
      confidence_breakdown = Counter (map confidence (findings self)),
      category_breakdown = Counter (map category (findings self)),
      top_issues = most_common 5 (Counter (map check_id (findings self)))\<rparr>"
  by (simp add: summary_stats_def summary_stats_m_def Let_def)

text \<open>
  C6. \<open>files_affected\<close> is the number of distinct \<open>path\<close> values of the findings; it is at
  most the number of findings, and equal to it exactly when the paths of the findings
  are pairwise distinct.
\<close>

theorem files_affected_distinct_paths:
  "files_affected (summary_stats self) = card (path ` set (findings self)) \<and>
   files_affected (summary_stats self) \<le> length (findings self) \<and>
   (files_affected (summary_stats self) = length (findings self)
      \<longleftrightarrow> distinct (map path (findings self)))"
proof -
  have fa: "files_affected (summary_stats self) = card (set (map path (findings self)))"
    by (simp add: summary_stats_eq)
  have le: "card (set (map path (findings self))) \<le> length (map path (findings self))"
    by (rule card_length)
  have eq: "card (set (map path (findings self))) = length (map path (findings self))
              \<longleftrightarrow> distinct (map path (findings self))"
    by (metis card_distinct distinct_card)
  from fa le eq show ?thesis by simp
qed

theorem files_affected_distinct_paths_witness:
  "files_affected (summary_stats sample_eight) = 1 \<and>
   files_affected (summary_stats sample_eight) \<le> length (findings sample_eight) \<and>
   \<not> distinct (map path (findings sample_eight))"
proof -
  have "card (path ` set (findings sample_eight)) = 1"
    by (simp add: sample_eight_def sample_report_def sample_finding_def)
  moreover have "length (findings sample_eight) = 8"
    by (simp add: sample_eight_def sample_report_def)
  ultimately show ?thesis
    using files_affected_distinct_paths [of sample_eight] by auto
qed

section \<open>Counting\<close>

lemma set_first_seen: "set (first_seen xs) = set xs"
  by (induction xs) auto

lemma distinct_first_seen: "distinct (first_seen xs)"
  by (induction xs) (auto simp: distinct_removeAll)

lemma first_seen_snoc:
  "first_seen (xs @ [x]) = (if x \<in> set xs then first_seen xs else first_seen xs @ [x])"
  by (induction xs) (auto simp: set_first_seen)

lemma counter_incr_map:
  "distinct vs \<Longrightarrow>
   counter_incr x (map (\<lambda>v. (v, c v)) vs) =
     (if x \<in> set vs then map (\<lambda>v. (v, if v = x then c v + 1 else c v)) vs
      else map (\<lambda>v. (v, c v)) vs @ [(x, 1)])"
  by (induction vs) auto

lemma Counter_snoc: "Counter (xs @ [x]) = counter_incr x (Counter xs)"
  by (simp add: Counter_def)

lemma Counter_eq: "Counter xs = map (\<lambda>v. (v, count_list xs v)) (first_seen xs)"
proof (induction xs rule: rev_induct)
  case Nil
  show ?case by (simp add: Counter_def)
next
  case (snoc x xs)
  show ?case
    by (auto simp add: Counter_snoc snoc counter_incr_map distinct_first_seen set_first_seen
          first_seen_snoc)
qed

lemma sum_counter_incr: "sum_list (map snd (counter_incr x m)) = Suc (sum_list (map snd m))"
  by (induction m) auto

lemma sum_Counter: "sum_list (map snd (Counter xs)) = length xs"
  by (induction xs rule: rev_induct) (simp_all add: Counter_snoc sum_counter_incr Counter_def)

text \<open>
  C4. Each breakdown lists the distinct values of its field in first-seen order, each
  with the number of findings that have it; the severity counts add up to the number of
  findings.
\<close>

theorem breakdowns_first_seen_counts:
  "severity_breakdown (summary_stats self) =
     map (\<lambda>v. (v, count_list (map severity (findings self)) v))
       (first_seen (map severity (findings self))) \<and>
   confidence_breakdown (summary_stats self) =
     map (\<lambda>v. (v, count_list (map confidence (findings self)) v))
       (first_seen (map confidence (findings self))) \<and>
   category_breakdown (summary_stats self) =
     map (\<lambda>v. (v, count_list (map category (findings self)) v))
       (first_seen (map category (findings self))) \<and>
   sum_list (map snd (severity_breakdown (summary_stats self))) = length (findings self)"
proof -
  have "sum_list (map snd (Counter (map severity (findings self)))) = length (findings self)"
    by (simp add: sum_Counter)
  then show ?thesis
    by (simp add: summary_stats_eq Counter_eq [symmetric])
qed

theorem breakdowns_first_seen_counts_witness:
  "severity_breakdown (summary_stats (sample_report
      [sample_finding ''r1'' ''b.py'' 3 ''WARNING'' ''LOW'',
       sample_finding ''r2'' ''a.py'' 1 ''ERROR'' ''LOW'',
       sample_finding ''r1'' ''a.py'' 7 ''WARNING'' ''HIGH''])) =
     [(''WARNING'', 2), (''ERROR'', 1)] \<and>
   confidence_breakdown (summary_stats (sample_report
      [sample_finding ''r1'' ''b.py'' 3 ''WARNING'' ''LOW'',
       sample_finding ''r2'' ''a.py'' 1 ''ERROR'' ''LOW'',
       sample_finding ''r1'' ''a.py'' 7 ''WARNING'' ''HIGH''])) =
     [(''LOW'', 2), (''HIGH'', 1)] \<and>
   sum_list (map snd (severity_breakdown (summary_stats (sample_report
      [sample_finding ''r1'' ''b.py'' 3 ''WARNING'' ''LOW'',
       sample_finding ''r2'' ''a.py'' 1 ''ERROR'' ''LOW'',
       sample_finding ''r1'' ''a.py'' 7 ''WARNING'' ''HIGH''])))) = 3"
  using breakdowns_first_seen_counts [of "sample_report
      [sample_finding ''r1'' ''b.py'' 3 ''WARNING'' ''LOW'',
       sample_finding ''r2'' ''a.py'' 1 ''ERROR'' ''LOW'',
       sample_finding ''r1'' ''a.py'' 7 ''WARNING'' ''HIGH'']"]
  by (simp add: sample_report_def sample_finding_def)

section \<open>Ranks\<close>

lemma sort_key_map_commute:
  "(\<And>x. f (g x) = f x) \<Longrightarrow> sort_key f (map g xs) = map g (sort_key f xs)"
proof (induction xs)
  case Nil
  show ?case by simp
next
  case (Cons x xs)
  have ins: "insort_key f (g x) (map g ys) = map g (insort_key f x ys)" for ys
    by (induction ys) (simp_all add: Cons.prems)
  show ?case by (simp add: Cons ins)
qed

lemma severity_order_cases:
  "severity_order f =
     (if severity f = ''ERROR'' then 0 else if severity f = ''WARNING'' then 1
      else if severity f = ''INFO'' then 2 else 3)"
  by (simp add: severity_order_def dict_get_def)

lemma confidence_order_cases:
  "confidence_order f =
     (if confidence f = ''HIGH'' then 0 else if confidence f = ''MEDIUM'' then 1
      else if confidence f = ''LOW'' then 2 else 3)"
  by (simp add: confidence_order_def dict_get_def)

text \<open>
  C8. The severity rank is 0 for ERROR, 1 for WARNING, 2 for INFO and 3 for UNKNOWN and
  for every other string; the confidence rank is 0 for HIGH, 1 for MEDIUM, 2 for LOW and
  3 otherwise, for every finding; and the sort of the findings does not look at the
  confidence: changing the confidences of the findings changes nothing else in the
  sorted sequence.
\<close>

theorem severity_and_confidence_ranks:
  "severity_order (f\<lparr>severity := ''ERROR''\<rparr>) = 0 \<and>
   severity_order (f\<lparr>severity := ''WARNING''\<rparr>) = 1 \<and>
   severity_order (f\<lparr>severity := ''INFO''\<rparr>) = 2 \<and>
   severity_order (f\<lparr>severity := ''UNKNOWN''\<rparr>) = 3 \<and>
   (severity f \<notin> {''ERROR'', ''WARNING'', ''INFO''} \<longrightarrow> severity_order f = 3) \<and>
   confidence_order (f\<lparr>confidence := ''HIGH''\<rparr>) = 0 \<and>
   confidence_order (f\<lparr>confidence := ''MEDIUM''\<rparr>) = 1 \<and>
   confidence_order (f\<lparr>confidence := ''LOW''\<rparr>) = 2 \<and>
   (confidence f \<notin> {''HIGH'', ''MEDIUM'', ''LOW''} \<longrightarrow> confidence_order f = 3) \<and>
   sort_findings (map (confidence_update g) fs) = map (confidence_update g) (sort_findings fs)"
proof -
  have "sort_findings (map (confidence_update g) fs) = map (confidence_update g) (sort_findings fs)"
    unfolding sort_findings_def
    by (rule sort_key_map_commute) (simp add: severity_order_def)
  then show ?thesis
    by (simp add: severity_order_cases confidence_order_cases)
qed

theorem severity_and_confidence_ranks_witness:
  "''CRITICAL'' \<notin> {''ERROR'', ''WARNING'', ''INFO''} \<and>
   severity_order (sample_finding ''r1'' ''a.py'' 1 ''CRITICAL'' ''LOW'') = 3 \<and>
   ''CERTAIN'' \<notin> {''HIGH'', ''MEDIUM'', ''LOW''} \<and>
   confidence_order (sample_finding ''r1'' ''a.py'' 1 ''ERROR'' ''CERTAIN'') = 3 \<and>
   sort_findings [sample_finding ''r1'' ''a.py'' 1 ''ERROR'' ''LOW'',
                  sample_finding ''r2'' ''a.py'' 1 ''ERROR'' ''HIGH''] =
     [sample_finding ''r1'' ''a.py'' 1 ''ERROR'' ''LOW'',
      sample_finding ''r2'' ''a.py'' 1 ''ERROR'' ''HIGH'']"
proof -
  have s: "severity (sample_finding ''r1'' ''a.py'' 1 ''CRITICAL'' ''LOW'') \<notin> {''ERROR'', ''WARNING'', ''INFO''}"
    by (simp add: sample_finding_def)
  have c: "confidence (sample_finding ''r1'' ''a.py'' 1 ''ERROR'' ''CERTAIN'') \<notin> {''HIGH'', ''MEDIUM'', ''LOW''}"
    by (simp add: sample_finding_def)
  show ?thesis
    using s c
      severity_and_confidence_ranks [of "sample_finding ''r1'' ''a.py'' 1 ''CRITICAL'' ''LOW''"]
      severity_and_confidence_ranks [of "sample_finding ''r1'' ''a.py'' 1 ''ERROR'' ''CERTAIN''"]
    by (simp add: sort_findings_def sample_finding_def severity_order_def dict_get_def)
qed

section \<open>The report after the statistics\<close>

text \<open>
  C10. Computing the summary statistics leaves the report as it was: the findings (same
  elements, same order), the errors, the scanned paths, the number of files scanned, the
  version and the scan time after the computation are those before it.
\<close>

theorem summary_stats_frame:
  "snd (run_state summary_stats_m self) = self \<and>
   findings (snd (run_state summary_stats_m self)) = findings self \<and>
   errors (snd (run_state summary_stats_m self)) = errors self \<and>
   scanned_paths (snd (run_state summary_stats_m self)) = scanned_paths self \<and>
   total_files_scanned (snd (run_state summary_stats_m self)) = total_files_scanned self \<and>
   version (snd (run_state summary_stats_m self)) = version self \<and>
   scan_time (snd (run_state summary_stats_m self)) = scan_time self"
proof -
  have "snd (run_state summary_stats_m self) = self"
    by (simp add: summary_stats_m_def Let_def)
  then show ?thesis by simp
qed

theorem summary_stats_frame_witness:
  "findings (snd (run_state summary_stats_m (sample_report
      [sample_finding ''r1'' ''b.py'' 3 ''WARNING'' ''LOW'',
       sample_finding ''r2'' ''a.py'' 1 ''ERROR'' ''LOW''])))
   = [sample_finding ''r1'' ''b.py'' 3 ''WARNING'' ''LOW'',
      sample_finding ''r2'' ''a.py'' 1 ''ERROR'' ''LOW''] \<and>
   errors (snd (run_state summary_stats_m (sample_report
      [sample_finding ''r1'' ''b.py'' 3 ''WARNING'' ''LOW'',
       sample_finding ''r2'' ''a.py'' 1 ''ERROR'' ''LOW'']))) = [JObj []]"
  using summary_stats_frame [of "sample_report
      [sample_finding ''r1'' ''b.py'' 3 ''WARNING'' ''LOW'',
       sample_finding ''r2'' ''a.py'' 1 ''ERROR'' ''LOW'']"]
  by (simp add: sample_report_def)

section \<open>Most common issues\<close>

lemma prefix_filter_take: "prefix (filter P (take n xs)) (filter P xs)"
proof -
  have "filter P xs = filter P (take n xs) @ filter P (drop n xs)"
    by (metis append_take_drop_id filter_append)
  then show ?thesis by (simp add: prefix_def)
qed

lemma most_common_length: "length (most_common n items) = min n (length items)"
  by (simp add: most_common_def min.commute)

lemma most_common_subset: "set (most_common n items) \<subseteq> set items"
  using set_take_subset [of n "sort_key (\<lambda>kc. - int (snd kc)) items"]
  by (simp add: most_common_def)

lemma most_common_distinct:
  assumes "distinct (map fst items)"
  shows "distinct (map fst (most_common n items))"
proof -
  have "mset (map fst (sort_key (\<lambda>kc. - int (snd kc)) items)) = mset (map fst items)"
    by simp
  then have "distinct (map fst (sort_key (\<lambda>kc. - int (snd kc)) items))"
    using assms by (metis mset_eq_imp_distinct_iff)
  then show ?thesis
    by (simp add: most_common_def take_map [symmetric] distinct_take)
qed

lemma most_common_descending: "sorted_wrt (\<ge>) (map snd (most_common n items))"
proof -
  have "sorted (map (\<lambda>kc. - int (snd kc)) (sort_key (\<lambda>kc. - int (snd kc)) items))"
    by (rule sorted_sort_key)
  then have "sorted (map (\<lambda>kc. - int (snd kc)) (most_common n items))"
    by (simp add: most_common_def take_map [symmetric] sorted_wrt_take)
  then show ?thesis
    by (simp add: sorted_wrt_map)
qed

lemma most_common_ties:
  "prefix (filter (\<lambda>kc. snd kc = c) (most_common n items)) (filter (\<lambda>kc. snd kc = c) items)"
proof -
  have "filter (\<lambda>kc. - int (snd kc) = - int c) (sort_key (\<lambda>kc. - int (snd kc)) items)
      = filter (\<lambda>kc. - int (snd kc) = - int c) items"
    by (rule sort_key_stable)
  then have "filter (\<lambda>kc. snd kc = c) (sort_key (\<lambda>kc. - int (snd kc)) items)
      = filter (\<lambda>kc. snd kc = c) items"
    by simp
  then show ?thesis
    using prefix_filter_take [of "\<lambda>kc. snd kc = c" n "sort_key (\<lambda>kc. - int (snd kc)) items"]
    by (simp add: most_common_def)
qed

lemma most_common_excluded:
  assumes "x \<in> set items" "x \<notin> set (most_common n items)" "y \<in> set (most_common n items)"
  shows "snd x \<le> snd y"
proof -
  let ?s = "sort_key (\<lambda>kc. - int (snd kc)) items"
  have "sorted (map (\<lambda>kc. - int (snd kc)) (take n ?s @ drop n ?s))"
    by simp
  then have ord: "\<forall>a \<in> set (take n ?s). \<forall>b \<in> set (drop n ?s). - int (snd a) \<le> - int (snd b)"
    unfolding map_append sorted_append by simp
  have "x \<in> set (take n ?s) \<union> set (drop n ?s)"
    using assms(1) by (metis append_take_drop_id set_append set_sort)
  then have "x \<in> set (drop n ?s)"
    using assms(2) by (simp add: most_common_def)
  moreover have "y \<in> set (take n ?s)"
    using assms(3) by (simp add: most_common_def)
  ultimately have "- int (snd y) \<le> - int (snd x)"
    using ord by blast
  then show ?thesis by simp
qed

text \<open>
  C5. \<open>top_issues\<close> has at most 5 entries (5, or all the distinct \<open>check_id\<close> values when
  there are fewer); each entry is a \<open>check_id\<close> of the findings, listed once, with the
  number of findings that have it; the counts descend; entries of equal count stand in
  first-seen order; and no \<open>check_id\<close> left out has a larger count than an entry.
\<close>

theorem top_issues_five_most_frequent:
  "length (top_issues (summary_stats self)) \<le> 5 \<and>
   length (top_issues (summary_stats self)) = min 5 (card (check_id ` set (findings self))) \<and>
   distinct (map fst (top_issues (summary_stats self))) \<and>
   (\<forall>kc \<in> set (top_issues (summary_stats self)).
      fst kc \<in> check_id ` set (findings self) \<and>
      snd kc = count_list (map check_id (findings self)) (fst kc)) \<and>
   sorted_wrt (\<ge>) (map snd (top_issues (summary_stats self))) \<and>
   (\<forall>c. prefix (map fst (filter (\<lambda>kc. snd kc = c) (top_issues (summary_stats self))))
          (filter (\<lambda>k. count_list (map check_id (findings self)) k = c)
             (first_seen (map check_id (findings self))))) \<and>
   (\<forall>k \<in> check_id ` set (findings self). k \<notin> fst ` set (top_issues (summary_stats self)) \<longrightarrow>
      (\<forall>kc \<in> set (top_issues (summary_stats self)).
         count_list (map check_id (findings self)) k \<le> snd kc))"
proof -
  let ?ids = "map check_id (findings self)"
  let ?items = "Counter ?ids"
  let ?top = "most_common 5 ?items"
  have top: "top_issues (summary_stats self) = ?top"
    by (simp add: summary_stats_eq)
  have items: "?items = map (\<lambda>v. (v, count_list ?ids v)) (first_seen ?ids)"
    by (rule Counter_eq)
  have keys: "map fst ?items = first_seen ?ids"
    by (simp add: items comp_def)
  have len_items: "length ?items = card (check_id ` set (findings self))"
    using distinct_card [OF distinct_first_seen, of ?ids]
    by (simp add: items set_first_seen)
  have len: "length ?top = min 5 (card (check_id ` set (findings self)))"
    by (simp add: most_common_length len_items)
  have dist: "distinct (map fst ?top)"
    by (rule most_common_distinct) (simp add: keys distinct_first_seen)
  have mem: "\<forall>kc \<in> set ?top. fst kc \<in> check_id ` set (findings self) \<and>
                snd kc = count_list ?ids (fst kc)"
  proof
    fix kc assume "kc \<in> set ?top"
    then have "kc \<in> set ?items" using most_common_subset by blast
    then show "fst kc \<in> check_id ` set (findings self) \<and> snd kc = count_list ?ids (fst kc)"
      unfolding items by (auto simp: set_first_seen)
  qed
  have desc: "sorted_wrt (\<ge>) (map snd ?top)"
    by (rule most_common_descending)
  have ties: "\<forall>c. prefix (map fst (filter (\<lambda>kc. snd kc = c) ?top))
                  (filter (\<lambda>k. count_list ?ids k = c) (first_seen ?ids))"
  proof
    fix c
    have "prefix (map fst (filter (\<lambda>kc. snd kc = c) ?top))
            (map fst (filter (\<lambda>kc. snd kc = c) ?items))"
      by (rule map_mono_prefix) (rule most_common_ties)
    moreover have "map fst (filter (\<lambda>kc. snd kc = c) ?items)
                 = filter (\<lambda>k. count_list ?ids k = c) (first_seen ?ids)"
      unfolding items by (simp add: filter_map comp_def)
    ultimately show "prefix (map fst (filter (\<lambda>kc. snd kc = c) ?top))
                       (filter (\<lambda>k. count_list ?ids k = c) (first_seen ?ids))"
      by simp
  qed
  have excl: "\<forall>k \<in> check_id ` set (findings self). k \<notin> fst ` set ?top \<longrightarrow>
                (\<forall>kc \<in> set ?top. count_list ?ids k \<le> snd kc)"
  proof (intro ballI impI)
    fix k kc
    assume k: "k \<in> check_id ` set (findings self)" and out: "k \<notin> fst ` set ?top"
      and kc: "kc \<in> set ?top"
    have "(k, count_list ?ids k) \<in> set ?items"
      unfolding items using k by (auto simp: set_first_seen)
    moreover have "(k, count_list ?ids k) \<notin> set ?top"
      using out by force
    ultimately have "snd (k, count_list ?ids k) \<le> snd kc"
      using kc by (rule most_common_excluded)
    then show "count_list ?ids k \<le> snd kc" by simp
  qed
  have five: "length ?top \<le> 5"
    by (simp add: most_common_length)
  show ?thesis
    unfolding top using five len dist mem desc ties excl by blast
qed

lemma top_sample_eight:
  "top_issues (summary_stats sample_eight) =
     [(''b'', 2), (''c'', 2), (''a'', 1), (''d'', 1), (''e'', 1)]"
  by (simp add: sample_eight_def summary_stats_eq sample_report_def sample_finding_def
        Counter_def most_common_def)

theorem top_issues_five_most_frequent_witness:
  "(''b'', 2) \<in> set (top_issues (summary_stats sample_eight)) \<and>
   ''f'' \<in> check_id ` set (findings sample_eight) \<and>
   ''f'' \<notin> fst ` set (top_issues (summary_stats sample_eight)) \<and>
   count_list (map check_id (findings sample_eight)) ''f'' \<le> 2 \<and>
   length (top_issues (summary_stats sample_eight)) = 5"
proof -
  have b: "(''b'', 2) \<in> set (top_issues (summary_stats sample_eight))"
    by (simp add: top_sample_eight)
  have f: "''f'' \<in> check_id ` set (findings sample_eight)"
    by (simp add: sample_eight_def sample_report_def sample_finding_def)
  have out: "''f'' \<notin> fst ` set (top_issues (summary_stats sample_eight))"
    by (simp add: top_sample_eight)
  have "card (check_id ` set (findings sample_eight)) =
          length (remdups (map check_id (findings sample_eight)))"
    using card_set [of "map check_id (findings sample_eight)"] by simp
  also have "\<dots> = 6"
    by (simp add: sample_eight_def sample_report_def sample_finding_def)
  finally have card: "card (check_id ` set (findings sample_eight)) = 6" .
  from top_issues_five_most_frequent [of sample_eight] b f out
  have "count_list (map check_id (findings sample_eight)) ''f'' \<le> snd (''b'', 2::nat)"
    by blast
  moreover from top_issues_five_most_frequent [of sample_eight] card
  have "length (top_issues (summary_stats sample_eight)) = 5"
    by simp
  ultimately show ?thesis using b f out by simp
qed

section \<open>Parsing one record\<close>

lemma missing_key_None: "missing_key r = None \<longleftrightarrow> \<not> missing_required r"
  by (auto simp: missing_key_def missing_required_def)

lemma parse_finding_missing:
  assumes "missing_key r = Some k"
  shows "parse_finding r = Inl (KeyError k)"
proof (cases "result_check_id r")
  case None
  with assms show ?thesis
    by (simp add: missing_key_def parse_finding_def getitem_def Let_def)
next
  case c: (Some c)
  show ?thesis
  proof (cases "result_path r")
    case None
    with assms c show ?thesis
      by (simp add: missing_key_def parse_finding_def getitem_def Let_def)
  next
    case p: (Some p)
    show ?thesis
    proof (cases "result_start r")
      case None
      with assms c p show ?thesis
        by (simp add: missing_key_def parse_finding_def getitem_def Let_def)
    next
      case st: (Some st)
      show ?thesis
      proof (cases "pos_line st")
        case None
        with assms c p st show ?thesis
          by (simp add: missing_key_def parse_finding_def getitem_def Let_def)
      next
        case sl: (Some sl)
        show ?thesis
        proof (cases "result_end r")
          case None
          with assms c p st sl show ?thesis
            by (simp add: missing_key_def parse_finding_def getitem_def Let_def)
        next
          case en: (Some en)
          show ?thesis
          proof (cases "pos_line en")
            case None
            with assms c p st sl en show ?thesis
              by (simp add: missing_key_def parse_finding_def getitem_def Let_def)
          next
            case el: (Some el)
            have "extra_message (dict_get (result_extra r) empty_extra) = None \<and> k = ''message''"
              using assms c p st sl en el
              by (cases "result_extra r")
                 (simp_all add: missing_key_def dict_get_def empty_extra_def split: if_splits)
            with c p st sl en el show ?thesis
              by (simp add: parse_finding_def getitem_def Let_def)
          qed
        qed
      qed
    qed
  qed
qed

lemma present_fields:
  assumes "\<not> missing_required r"
  obtains c p st sl en el x m where
    "result_check_id r = Some c" "result_path r = Some p"
    "result_start r = Some st" "pos_line st = Some sl"
    "result_end r = Some en" "pos_line en = Some el"
    "result_extra r = Some x" "extra_message x = Some m"
  using assms by (auto simp: missing_required_def bind_eq_Some_conv)

lemma parse_finding_fields:
  assumes "result_check_id r = Some c" "result_path r = Some p"
    "result_start r = Some st" "pos_line st = Some sl"
    "result_end r = Some en" "pos_line en = Some el"
    "result_extra r = Some x" "extra_message x = Some m"
  shows "parse_finding r =
     Inr \<lparr>check_id = c, path = p, start_line = sl, end_line = el,
          severity = dict_get (extra_severity x) ''UNKNOWN'',
          confidence =
            dict_get (metadata_confidence (dict_get (extra_metadata x) empty_metadata)) ''UNKNOWN'',
          message = m,
          category =
            dict_get (metadata_category (dict_get (extra_metadata x) empty_metadata)) ''unknown'',
          technology = dict_get (metadata_technology (dict_get (extra_metadata x) empty_metadata)) [],
          cwe = dict_get (metadata_cwe (dict_get (extra_metadata x) empty_metadata)) [],
          owasp = dict_get (metadata_owasp (dict_get (extra_metadata x) empty_metadata)) [],
          references = dict_get (metadata_references (dict_get (extra_metadata x) empty_metadata)) [],
          shortlink = metadata_shortlink (dict_get (extra_metadata x) empty_metadata),
          lines = extra_lines x,
          fingerprint = extra_fingerprint x\<rparr>"
  by (simp add: parse_finding_def Let_def getitem_def dict_get_def assms)

lemma parse_finding_present:
  assumes "missing_key r = None"
  shows "\<exists>f. parse_finding r = Inr f"
proof -
  from assms have "\<not> missing_required r" by (simp add: missing_key_None)
  then show ?thesis
    by (rule present_fields) (blast dest: parse_finding_fields)
qed

lemma parse_finding_Inr_present:
  assumes "parse_finding r = Inr f"
  shows "\<not> missing_required r"
proof (cases "missing_key r")
  case None
  then show ?thesis by (simp add: missing_key_None)
next
  case (Some k)
  then show ?thesis using assms parse_finding_missing [of r k] by simp
qed

lemma parse_finding_required:
  assumes "parse_finding r = Inr f"
  shows "input_required r =
           [Some (JStr (check_id f)), Some (JStr (path f)), Some (JInt (start_line f)),
            Some (JInt (end_line f)), Some (JStr (message f))]"
proof -
  from parse_finding_Inr_present [OF assms] obtain c p st sl en el x m where
    fl: "result_check_id r = Some c" "result_path r = Some p"
      "result_start r = Some st" "pos_line st = Some sl"
      "result_end r = Some en" "pos_line en = Some el"
      "result_extra r = Some x" "extra_message x = Some m"
    by (rule present_fields)
  from assms have "check_id f = c \<and> path f = p \<and> start_line f = sl \<and> end_line f = el \<and>
      message f = m"
    unfolding parse_finding_fields [OF fl] by auto
  then show ?thesis
    by (simp add: input_required_def fl)
qed

lemma payload_required_finding_dict:
  "payload_required (finding_dict f) =
     [Some (JStr (check_id f)), Some (JStr (path f)), Some (JInt (start_line f)),
      Some (JInt (end_line f)), Some (JStr (message f))]"
  by (simp add: payload_required_def finding_dict_def)

section \<open>Parsing the document\<close>

lemma parse_loop_Inr:
  "parse_loop rs report = Inr report' \<longleftrightarrow>
     (\<exists>fs. map parse_finding rs = map Inr fs \<and>
           report' = report\<lparr>findings := findings report @ fs\<rparr>)"
proof (induction rs arbitrary: report)
  case Nil
  show ?case by auto
next
  case (Cons r rs)
  show ?case
  proof (cases "parse_finding r")
    case (Inl e)
    then show ?thesis by (auto simp: map_eq_Cons_conv)
  next
    case (Inr f)
    then show ?thesis by (auto simp: Cons map_eq_Cons_conv Cons_eq_map_conv)
  qed
qed

lemma parse_loop_first_missing:
  assumes "\<forall>r \<in> set good. \<not> missing_required r" "missing_key bad = Some k"
  shows "parse_loop (good @ bad # rest) report = Inl (KeyError k)"
  using assms(1)
proof (induction good arbitrary: report)
  case Nil
  show ?case by (simp add: parse_finding_missing [OF assms(2)])
next
  case (Cons g good)
  from Cons.prems have "missing_key g = None" by (simp add: missing_key_None)
  then obtain f where "parse_finding g = Inr f" using parse_finding_present by blast
  then show ?case using Cons by simp
qed

lemma parse_all_present:
  assumes "\<forall>r \<in> set rs. \<not> missing_required r"
  shows "\<exists>fs. map parse_finding rs = map Inr fs"
  using assms
proof (induction rs)
  case Nil
  show ?case by simp
next
  case (Cons r rs)
  then obtain fs where fs: "map parse_finding rs = map Inr fs" by auto
  from Cons.prems have "missing_key r = None" by (simp add: missing_key_None)
  then obtain f where "parse_finding r = Inr f" using parse_finding_present by blast
  with fs have "map parse_finding (r # rs) = map Inr (f # fs)" by simp
  then show ?case by blast
qed

lemma parsed_required:
  "map parse_finding rs = map Inr fs \<Longrightarrow>
   map (\<lambda>f. payload_required (finding_dict f)) fs = map input_required rs"
proof (induction rs arbitrary: fs)
  case Nil
  then show ?case by simp
next
  case (Cons r rs)
  then obtain f fs' where fs: "fs = f # fs'" "parse_finding r = Inr f"
      "map parse_finding rs = map Inr fs'"
    by (auto simp: Cons_eq_map_conv)
  then show ?case
    using Cons.IH [of fs'] parse_finding_required [of r f]
    by (simp add: payload_required_finding_dict)
qed

lemma parse_loop_total:
  "map parse_finding rs = map Inr fs \<Longrightarrow>
   parse_loop rs report = Inr (report\<lparr>findings := findings report @ fs\<rparr>)"
  using parse_loop_Inr [of rs report "report\<lparr>findings := findings report @ fs\<rparr>"] by blast

lemma parse_semgrep_data_Inr:
  "parse_semgrep_data data = Inr report \<longleftrightarrow>
     (\<exists>fs. map parse_finding (dict_get (data_results data) []) = map Inr fs \<and>
        report =
          \<lparr>version = dict_get (data_version data) ''unknown'',
           findings = sort_findings fs,
           errors = dict_get (data_errors data) [],
           scanned_paths = dict_get (paths_scanned (dict_get (data_paths data) empty_paths)) [],
           total_files_scanned =
             length (dict_get (paths_scanned (dict_get (data_paths data) empty_paths)) []),
           scan_time = Some (dict_get (data_time data) (JObj []))\<rparr>)"
  (is "?lhs \<longleftrightarrow> ?rhs")
proof
  assume ?lhs
  then show ?rhs
    by (auto simp: parse_semgrep_data_def Let_def parse_loop_Inr split: sum.splits)
next
  assume ?rhs
  then obtain fs where fs: "map parse_finding (dict_get (data_results data) []) = map Inr fs"
    and rep: "report =
          \<lparr>version = dict_get (data_version data) ''unknown'',
           findings = sort_findings fs,
           errors = dict_get (data_errors data) [],
           scanned_paths = dict_get (paths_scanned (dict_get (data_paths data) empty_paths)) [],
           total_files_scanned =
             length (dict_get (paths_scanned (dict_get (data_paths data) empty_paths)) []),
           scan_time = Some (dict_get (data_time data) (JObj []))\<rparr>"
    by blast
  show ?lhs
    by (simp add: parse_semgrep_data_def Let_def parse_loop_total [OF fs] rep)
qed

lemma parse_semgrep_data_Inl:
  assumes "dict_get (data_results data) [] = good @ bad # rest"
    "\<forall>r \<in> set good. \<not> missing_required r" "missing_key bad = Some k"
  shows "parse_semgrep_data data = Inl (KeyError k)"
  using parse_loop_first_missing [OF assms(2,3)]
  by (simp add: parse_semgrep_data_def Let_def assms(1))

section \<open>Count and round trip\<close>

text \<open>
  C3. When every record of \<open>results\<close> has its required fields, a report is produced; it
  has as many findings as \<open>results\<close> has records, the serialized findings have as many
  entries, and the required fields \<open>check_id\<close>, \<open>path\<close>, \<open>start_line\<close>, \<open>end_line\<close>,
  \<open>message\<close> of the entries are, record for record, the values the input records hold
  (the entries stand in the sorted order, so the correspondence is one of multisets).
\<close>

theorem findings_count_and_round_trip:
  assumes "\<forall>r \<in> set (dict_get (data_results data) []). \<not> missing_required r"
  shows "\<exists>report.
           parse_semgrep_data data = Inr report \<and>
           length (findings report) = length (dict_get (data_results data) []) \<and>
           findings_json (make_template_data now report) =
             JList (map finding_dict (findings report)) \<and>
           length (json_elements (findings_json (make_template_data now report))) =
             length (dict_get (data_results data) []) \<and>
           mset (map payload_required
                  (json_elements (findings_json (make_template_data now report)))) =
             mset (map input_required (dict_get (data_results data) [])) \<and>
           (\<forall>q \<in> set (map payload_required
                  (json_elements (findings_json (make_template_data now report)))).
              None \<notin> set q)"
proof -
  let ?rs = "dict_get (data_results data) []"
  from parse_all_present [OF assms]
  obtain fs where fs: "map parse_finding ?rs = map Inr fs" by blast
  define report where "report =
          \<lparr>version = dict_get (data_version data) ''unknown'',
           findings = sort_findings fs,
           errors = dict_get (data_errors data) [],
           scanned_paths = dict_get (paths_scanned (dict_get (data_paths data) empty_paths)) [],
           total_files_scanned =
             length (dict_get (paths_scanned (dict_get (data_paths data) empty_paths)) []),
           scan_time = Some (dict_get (data_time data) (JObj []))\<rparr>"
  have parsed: "parse_semgrep_data data = Inr report"
    unfolding parse_semgrep_data_Inr report_def using fs by blast
  have fr: "findings report = sort_findings fs"
    by (simp add: report_def)
  have len_fs: "length fs = length ?rs"
    using fs by (metis length_map)
  have len: "length (findings report) = length ?rs"
    by (simp add: fr sort_findings_def len_fs)
  have payload: "findings_json (make_template_data now report) =
                   JList (map finding_dict (findings report))"
    by (simp add: make_template_data_def Let_def)
  have elems: "json_elements (findings_json (make_template_data now report)) =
                 map finding_dict (findings report)"
    by (simp add: payload json_elements_def)
  have "mset (map (\<lambda>f. payload_required (finding_dict f)) (sort_findings fs)) =
        mset (map (\<lambda>f. payload_required (finding_dict f)) fs)"
    by (simp add: sort_findings_def)
  then have ms: "mset (map payload_required (map finding_dict (findings report))) =
                 mset (map input_required ?rs)"
    by (simp add: fr parsed_required [OF fs] comp_def)
  have "\<forall>q \<in> set (map payload_required (map finding_dict (findings report))). None \<notin> set q"
    by (auto simp: payload_required_finding_dict)
  with parsed len payload elems ms show ?thesis
    by (intro exI [of _ report]) simp
qed

lemma sample_result_present: "\<not> missing_required (sample_result c p n s)"
  by (simp add: missing_required_def sample_result_def)

theorem findings_count_and_round_trip_witness:
  "\<not> missing_required (sample_result ''r1'' ''b.py'' 3 ''INFO'') \<and>
   \<not> missing_required (sample_result ''r2'' ''a.py'' 9 ''ERROR'') \<and>
   (\<exists>report.
      parse_semgrep_data
        (sample_data [sample_result ''r1'' ''b.py'' 3 ''INFO'',
                      sample_result ''r2'' ''a.py'' 9 ''ERROR'']) = Inr report \<and>
      length (findings report) = 2 \<and>
      mset (map payload_required
             (json_elements (findings_json (make_template_data ''2024-01-01'' report)))) =
        {#[Some (JStr ''r1''), Some (JStr ''b.py''), Some (JInt 3), Some (JInt 4),
           Some (JStr ''found'')],
          [Some (JStr ''r2''), Some (JStr ''a.py''), Some (JInt 9), Some (JInt 10),
           Some (JStr ''found'')]#})"
proof -
  let ?d = "sample_data [sample_result ''r1'' ''b.py'' 3 ''INFO'',
                         sample_result ''r2'' ''a.py'' 9 ''ERROR'']"
  have rs: "dict_get (data_results ?d) [] =
              [sample_result ''r1'' ''b.py'' 3 ''INFO'', sample_result ''r2'' ''a.py'' 9 ''ERROR'']"
    by (simp add: sample_data_def dict_get_def)
  have ok: "\<forall>r \<in> set (dict_get (data_results ?d) []). \<not> missing_required r"
    by (simp add: rs sample_result_present)
  have inp: "map input_required (dict_get (data_results ?d) []) =
               [[Some (JStr ''r1''), Some (JStr ''b.py''), Some (JInt 3), Some (JInt 4),
                 Some (JStr ''found'')],
                [Some (JStr ''r2''), Some (JStr ''a.py''), Some (JInt 9), Some (JInt 10),
                 Some (JStr ''found'')]]"
    unfolding rs by (simp add: input_required_def sample_result_def)
  from findings_count_and_round_trip [OF ok, of "''2024-01-01''"]
  obtain report where
    "parse_semgrep_data ?d = Inr report"
    "length (findings report) = length (dict_get (data_results ?d) [])"
    "mset (map payload_required
            (json_elements (findings_json (make_template_data ''2024-01-01'' report)))) =
       mset (map input_required (dict_get (data_results ?d) []))"
    by blast
  then have "parse_semgrep_data ?d = Inr report \<and> length (findings report) = 2 \<and>
      mset (map payload_required
             (json_elements (findings_json (make_template_data ''2024-01-01'' report)))) =
        {#[Some (JStr ''r1''), Some (JStr ''b.py''), Some (JInt 3), Some (JInt 4),
           Some (JStr ''found'')],
          [Some (JStr ''r2''), Some (JStr ''a.py''), Some (JInt 9), Some (JInt 10),
           Some (JStr ''found'')]#}"
    unfolding inp by (simp add: rs)
  then show ?thesis
    using sample_result_present by blast
qed

section \<open>Header fields of the report\<close>

text \<open>
  C9. A report the parser returns has the \<open>version\<close> of the input, or \<open>unknown\<close> when the
  key is absent; its \<open>errors\<close> are the \<open>errors\<close> of the input, the empty sequence when
  absent, and the serialized errors are that same sequence; its \<open>scanned_paths\<close> are
  \<open>paths.scanned\<close>, empty when \<open>paths\<close> or \<open>scanned\<close> is absent; and \<open>total_files_scanned\<close>
  is the length of \<open>scanned_paths\<close>.
\<close>

theorem report_header_fields:
  assumes "parse_semgrep_data data = Inr report"
  shows "version report = (case data_version data of None \<Rightarrow> ''unknown'' | Some v \<Rightarrow> v) \<and>
         errors report = (case data_errors data of None \<Rightarrow> [] | Some es \<Rightarrow> es) \<and>
         errors_json (make_template_data now report) =
           JList (case data_errors data of None \<Rightarrow> [] | Some es \<Rightarrow> es) \<and>
         scanned_paths report =
           (case data_paths data of
              None \<Rightarrow> []
            | Some p \<Rightarrow> (case paths_scanned p of None \<Rightarrow> [] | Some s \<Rightarrow> s)) \<and>
         total_files_scanned report = length (scanned_paths report)"
proof -
  from assms obtain fs where
    "report =
          \<lparr>version = dict_get (data_version data) ''unknown'',
           findings = sort_findings fs,
           errors = dict_get (data_errors data) [],
           scanned_paths = dict_get (paths_scanned (dict_get (data_paths data) empty_paths)) [],
           total_files_scanned =
             length (dict_get (paths_scanned (dict_get (data_paths data) empty_paths)) []),
           scan_time = Some (dict_get (data_time data) (JObj []))\<rparr>"
    unfolding parse_semgrep_data_Inr by blast
  then show ?thesis
    by (simp add: dict_get_def make_template_data_def Let_def empty_paths_def split: option.splits)
qed

lemma parse_sample_result:
  "parse_finding (sample_result c p n s) =
     Inr \<lparr>check_id = c, path = p, start_line = n, end_line = n + 1, severity = s,
          confidence = ''UNKNOWN'', message = ''found'', category = ''unknown'',
          technology = [], cwe = [], owasp = [], references = [], shortlink = None,
          lines = None, fingerprint = None\<rparr>"
  by (simp add: parse_finding_def sample_result_def getitem_def dict_get_def empty_metadata_def
        Let_def)

theorem report_header_fields_witness:
  "\<exists>report.
     parse_semgrep_data (sample_data [sample_result ''r1'' ''b.py'' 3 ''INFO'']) = Inr report \<and>
     version report = ''1.50.0'' \<and>
     errors report = [JObj [(''type'', JStr ''Timeout''), (''path'', JStr ''a.py'')], JObj []] \<and>
     scanned_paths report = [''a.py'', ''b.py'', ''c.py''] \<and>
     total_files_scanned report = 3"
proof -
  let ?d = "sample_data [sample_result ''r1'' ''b.py'' 3 ''INFO'']"
  have "\<forall>r \<in> set (dict_get (data_results ?d) []). \<not> missing_required r"
    by (simp add: sample_data_def dict_get_def sample_result_present)
  then obtain fs where "map parse_finding (dict_get (data_results ?d) []) = map Inr fs"
    using parse_all_present by blast
  then obtain report where p: "parse_semgrep_data ?d = Inr report"
    unfolding parse_semgrep_data_Inr by blast
  from report_header_fields [OF p, of "''now''"]
  have "version report = ''1.50.0'' \<and>
     errors report = [JObj [(''type'', JStr ''Timeout''), (''path'', JStr ''a.py'')], JObj []] \<and>
     scanned_paths report = [''a.py'', ''b.py'', ''c.py''] \<and>
     total_files_scanned report = 3"
    by (simp add: sample_data_def)
  with p show ?thesis by blast
qed

section \<open>The order of the findings\<close>

text \<open>
  Any rearrangement of the findings that is sorted by the key and keeps the findings of
  each key in their given order is the one \<open>sort_findings\<close> computes, so the choice of
  the sorting algorithm does not show in the result.
\<close>

lemma stable_sort_unique:
  assumes "mset ys = mset fs"
    and "sorted (map (\<lambda>f. (severity_order f, path f, start_line f)) ys)"
    and "\<forall>k. filter (\<lambda>f. (severity_order f, path f, start_line f) = k) ys =
             filter (\<lambda>f. (severity_order f, path f, start_line f) = k) fs"
  shows "ys = sort_findings fs"
proof -
  have "sort_key (\<lambda>f. (severity_order f, path f, start_line f)) fs = ys"
  proof (rule properties_for_sort_key)
    show "mset ys = mset fs" by (rule assms(1))
    show "sorted (map (\<lambda>f. (severity_order f, path f, start_line f)) ys)" by (rule assms(2))
    fix k assume "k \<in> set ys"
    from assms(3)
    have "filter (\<lambda>f. (severity_order f, path f, start_line f) =
                     (severity_order k, path k, start_line k)) ys =
          filter (\<lambda>f. (severity_order f, path f, start_line f) =
                     (severity_order k, path k, start_line k)) fs"
      by blast
    then show "filter (\<lambda>x. (severity_order k, path k, start_line k) =
                          (severity_order x, path x, start_line x)) ys =
               filter (\<lambda>x. (severity_order k, path k, start_line k) =
                          (severity_order x, path x, start_line x)) fs"
      by (simp add: eq_commute)
  qed
  then show ?thesis by (simp add: sort_findings_def)
qed

text \<open>
  C1. The findings of a returned report are the findings parsed from \<open>results\<close>,
  rearranged: ascending by the key (severity rank, path, start line), where the rank is 0
  for ERROR, 1 for WARNING, 2 for INFO and 3 for anything else, and with the findings
  of any one key in the order their records have in \<open>results\<close>. Three records with
  severities INFO, ERROR, WARNING at one path and line come out as ERROR, WARNING, INFO.
\<close>

theorem findings_sorted_stable:
  assumes "parse_semgrep_data data = Inr report"
  shows "\<exists>fs. map parse_finding (dict_get (data_results data) []) = map Inr fs \<and>
           mset (findings report) = mset fs \<and>
           sorted (map (\<lambda>f. (severity_order f, path f, start_line f)) (findings report)) \<and>
           (\<forall>k. filter (\<lambda>f. (severity_order f, path f, start_line f) = k) (findings report) =
                filter (\<lambda>f. (severity_order f, path f, start_line f) = k) fs) \<and>
           (\<forall>f. severity_order f =
                (if severity f = ''ERROR'' then 0 else if severity f = ''WARNING'' then 1
                 else if severity f = ''INFO'' then 2 else 3)) \<and>
           (\<forall>a b c. fs = [a, b, c] \<and> severity a = ''INFO'' \<and> severity b = ''ERROR'' \<and>
                severity c = ''WARNING'' \<and> path a = path b \<and> path b = path c \<and>
                start_line a = start_line b \<and> start_line b = start_line c \<longrightarrow>
                findings report = [b, c, a])"
proof -
  from assms obtain fs where
    fs: "map parse_finding (dict_get (data_results data) []) = map Inr fs" and
    fr: "findings report = sort_findings fs"
    unfolding parse_semgrep_data_Inr by auto
  have ms: "mset (findings report) = mset fs"
    by (simp add: fr sort_findings_def)
  have so: "sorted (map (\<lambda>f. (severity_order f, path f, start_line f)) (findings report))"
    unfolding fr sort_findings_def by (rule sorted_sort_key)
  have st: "\<forall>k. filter (\<lambda>f. (severity_order f, path f, start_line f) = k) (findings report) =
                filter (\<lambda>f. (severity_order f, path f, start_line f) = k) fs"
    unfolding fr sort_findings_def by (simp add: sort_key_stable)
  have rk: "\<forall>f. severity_order f =
                (if severity f = ''ERROR'' then 0 else if severity f = ''WARNING'' then 1
                 else if severity f = ''INFO'' then 2 else 3)"
    using severity_order_cases by blast
  have ex: "\<forall>a b c. fs = [a, b, c] \<and> severity a = ''INFO'' \<and> severity b = ''ERROR'' \<and>
                severity c = ''WARNING'' \<and> path a = path b \<and> path b = path c \<and>
                start_line a = start_line b \<and> start_line b = start_line c \<longrightarrow>
                findings report = [b, c, a]"
    by (simp add: fr sort_findings_def severity_order_cases)
  from fs ms so st rk ex show ?thesis by blast
qed

theorem findings_sorted_stable_witness:
  "\<exists>report.
     parse_semgrep_data
       (sample_data [sample_result ''r1'' ''a.py'' 3 ''INFO'',
                     sample_result ''r2'' ''a.py'' 3 ''ERROR'',
                     sample_result ''r3'' ''a.py'' 3 ''WARNING'']) = Inr report \<and>
     map severity (findings report) = [''ERROR'', ''WARNING'', ''INFO''] \<and>
     map check_id (findings report) = [''r2'', ''r3'', ''r1'']"
proof -
  let ?rs = "[sample_result ''r1'' ''a.py'' 3 ''INFO'',
              sample_result ''r2'' ''a.py'' 3 ''ERROR'',
              sample_result ''r3'' ''a.py'' 3 ''WARNING'']"
  have rs: "dict_get (data_results (sample_data ?rs)) [] = ?rs"
    by (simp add: sample_data_def dict_get_def)
  have "\<forall>r \<in> set (dict_get (data_results (sample_data ?rs)) []). \<not> missing_required r"
    unfolding rs by (simp add: sample_result_present)
  then obtain gs where
    "map parse_finding (dict_get (data_results (sample_data ?rs)) []) = map Inr gs"
    using parse_all_present by blast
  then obtain report where p: "parse_semgrep_data (sample_data ?rs) = Inr report"
    unfolding parse_semgrep_data_Inr by blast
  from findings_sorted_stable [OF p] obtain fs where
    fs: "map parse_finding (dict_get (data_results (sample_data ?rs)) []) = map Inr fs" and
    ex: "\<forall>a b c. fs = [a, b, c] \<and> severity a = ''INFO'' \<and> severity b = ''ERROR'' \<and>
                severity c = ''WARNING'' \<and> path a = path b \<and> path b = path c \<and>
                start_line a = start_line b \<and> start_line b = start_line c \<longrightarrow>
                findings report = [b, c, a]"
    by blast
  obtain a b c where abc: "fs = [a, b, c]" "parse_finding (sample_result ''r1'' ''a.py'' 3 ''INFO'') = Inr a"
      "parse_finding (sample_result ''r2'' ''a.py'' 3 ''ERROR'') = Inr b"
      "parse_finding (sample_result ''r3'' ''a.py'' 3 ''WARNING'') = Inr c"
    using fs unfolding rs by (auto simp: Cons_eq_map_conv)
  have flds: "severity a = ''INFO''" "severity b = ''ERROR''" "severity c = ''WARNING''"
      "path a = ''a.py''" "path b = ''a.py''" "path c = ''a.py''"
      "start_line a = 3" "start_line b = 3" "start_line c = 3"
      "check_id a = ''r1''" "check_id b = ''r2''" "check_id c = ''r3''"
    using abc(2-4) unfolding parse_sample_result by auto
  from ex abc(1) flds have "findings report = [b, c, a]"
    by simp
  with p flds show ?thesis by simp
qed

section \<open>Defaults of the optional fields\<close>

text \<open>
  C7. A record with its required fields parses, whether or not it has a \<open>metadata\<close> key.
  When \<open>extra.metadata\<close> is absent the record parses exactly as with an empty
  \<open>metadata\<close> mapping, and the finding has confidence \<open>UNKNOWN\<close>, category \<open>unknown\<close>,
  empty \<open>technology\<close>, \<open>cwe\<close>, \<open>owasp\<close> and \<open>references\<close>, and no \<open>shortlink\<close>. An absent
  \<open>extra.severity\<close> gives severity \<open>UNKNOWN\<close>; absent \<open>extra.lines\<close> and
  \<open>extra.fingerprint\<close> give \<open>None\<close>.
\<close>

theorem absent_metadata_defaults:
  assumes "\<not> missing_required result"
  shows "\<exists>f. parse_finding result = Inr f \<and>
           (Option.bind (result_extra result) extra_metadata = None \<longrightarrow>
              confidence f = ''UNKNOWN'' \<and> category f = ''unknown'' \<and> technology f = [] \<and>
              cwe f = [] \<and> owasp f = [] \<and> references f = [] \<and> shortlink f = None \<and>
              (\<forall>x. result_extra result = Some x \<longrightarrow>
                 parse_finding
                   (result\<lparr>result_extra := Some (x\<lparr>extra_metadata := Some empty_metadata\<rparr>)\<rparr>) =
                 Inr f)) \<and>
           (Option.bind (result_extra result) extra_severity = None \<longrightarrow>
              severity f = ''UNKNOWN'') \<and>
           (Option.bind (result_extra result) extra_lines = None \<longrightarrow> lines f = None) \<and>
           (Option.bind (result_extra result) extra_fingerprint = None \<longrightarrow>
              fingerprint f = None)"
proof -
  from assms obtain c p st en x where
    c: "result_check_id result = Some c" and p: "result_path result = Some p" and
    st: "result_start result = Some st" and en: "result_end result = Some en" and
    x: "result_extra result = Some x"
    by (auto simp: missing_required_def bind_eq_Some_conv)
  from assms st en x obtain sl el m where
    sl: "pos_line st = Some sl" and el: "pos_line en = Some el" and
    m: "extra_message x = Some m"
    by (auto simp: missing_required_def bind_eq_Some_conv)
  define md where "md = dict_get (extra_metadata x) empty_metadata"
  define f where "f =
     \<lparr>check_id = c, path = p, start_line = sl, end_line = el,
      severity = dict_get (extra_severity x) ''UNKNOWN'',
      confidence = dict_get (metadata_confidence md) ''UNKNOWN'',
      message = m,
      category = dict_get (metadata_category md) ''unknown'',
      technology = dict_get (metadata_technology md) [],
      cwe = dict_get (metadata_cwe md) [],
      owasp = dict_get (metadata_owasp md) [],
      references = dict_get (metadata_references md) [],
      shortlink = metadata_shortlink md,
      lines = extra_lines x,
      fingerprint = extra_fingerprint x\<rparr>"
  have pf: "parse_finding result = Inr f"
    by (simp add: parse_finding_def Let_def getitem_def dict_get_def c p st en x sl el m
          f_def md_def)
  have md_empty: "extra_metadata x = None \<Longrightarrow> md = empty_metadata"
    by (simp add: md_def dict_get_def)
  have meta: "Option.bind (result_extra result) extra_metadata = None \<longrightarrow>
              confidence f = ''UNKNOWN'' \<and> category f = ''unknown'' \<and> technology f = [] \<and>
              cwe f = [] \<and> owasp f = [] \<and> references f = [] \<and> shortlink f = None"
    by (simp add: x f_def md_empty empty_metadata_def dict_get_def)
  have same: "Option.bind (result_extra result) extra_metadata = None \<longrightarrow>
              (\<forall>y. result_extra result = Some y \<longrightarrow>
                 parse_finding
                   (result\<lparr>result_extra := Some (y\<lparr>extra_metadata := Some empty_metadata\<rparr>)\<rparr>) =
                 Inr f)"
    by (simp add: x parse_finding_def Let_def getitem_def dict_get_def c p st en sl el m
          f_def md_def)
  have sev: "Option.bind (result_extra result) extra_severity = None \<longrightarrow>
              severity f = ''UNKNOWN''"
    by (simp add: x f_def dict_get_def)
  have lin: "Option.bind (result_extra result) extra_lines = None \<longrightarrow> lines f = None"
    by (simp add: x f_def)
  have fin: "Option.bind (result_extra result) extra_fingerprint = None \<longrightarrow>
              fingerprint f = None"
    by (simp add: x f_def)
  from pf meta same sev lin fin show ?thesis
    by (intro exI [of _ f]) simp
qed

theorem absent_metadata_defaults_witness:
  "\<not> missing_required (sample_result ''r1'' ''a.py'' 3 ''INFO'') \<and>
   Option.bind (result_extra (sample_result ''r1'' ''a.py'' 3 ''INFO'')) extra_metadata = None \<and>
   Option.bind (result_extra (sample_result ''r1'' ''a.py'' 3 ''INFO'')) extra_lines = None \<and>
   (\<exists>f. parse_finding (sample_result ''r1'' ''a.py'' 3 ''INFO'') = Inr f \<and>
        confidence f = ''UNKNOWN'' \<and> category f = ''unknown'' \<and> technology f = [] \<and>
        cwe f = [] \<and> owasp f = [] \<and> references f = [] \<and> shortlink f = None \<and>
        lines f = None)"
proof -
  have m: "Option.bind (result_extra (sample_result ''r1'' ''a.py'' 3 ''INFO'')) extra_metadata = None"
    by (simp add: sample_result_def)
  have l: "Option.bind (result_extra (sample_result ''r1'' ''a.py'' 3 ''INFO'')) extra_lines = None"
    by (simp add: sample_result_def)
  from absent_metadata_defaults [OF sample_result_present, of "''r1''" "''a.py''" 3 "''INFO''"] m l
  show ?thesis
    using sample_result_present by blast
qed

section \<open>A record without a required field\<close>

lemma missing_key_names:
  "missing_key r = Some k \<Longrightarrow> k \<in> {''check_id'', ''path'', ''start'', ''end'', ''line'', ''message''}"
  by (auto simp: missing_key_def split: if_splits)

text \<open>
  C2, as the code has it. When some record of \<open>results\<close> lacks a required field, the
  parser raises \<open>KeyError\<close> for the first such record, naming the key whose subscript
  failed (not the position of the record); no report is returned; and
  \<open>generate_report\<close> on a file holding that document ends with the same error and
  leaves the file system as it was, so no output file is written.
\<close>

theorem missing_required_field_aborts:
  assumes "\<exists>r \<in> set (dict_get (data_results data) []). missing_required r"
  shows "\<exists>good bad rest k.
           dict_get (data_results data) [] = good @ bad # rest \<and>
           (\<forall>r \<in> set good. \<not> missing_required r) \<and> missing_required bad \<and>
           missing_key bad = Some k \<and>
           k \<in> {''check_id'', ''path'', ''start'', ''end'', ''line'', ''message''} \<and>
           parse_semgrep_data data = Inl (KeyError k) \<and>
           (\<forall>report. parse_semgrep_data data \<noteq> Inr report) \<and>
           (\<forall>json_load render now fs json_file output_file contents.
              fs json_file = Some contents \<and> json_load contents = Inr data \<longrightarrow>
              generate_report json_load render now fs json_file output_file =
                (Inl (KeyError k), fs))"
proof -
  from split_list_first_prop [OF assms]
  obtain good bad rest where
    sp: "dict_get (data_results data) [] = good @ bad # rest" and
    bad: "missing_required bad" and
    good: "\<forall>r \<in> set good. \<not> missing_required r"
    by blast
  from bad obtain k where k: "missing_key bad = Some k"
    using missing_key_None [of bad] by auto
  have p: "parse_semgrep_data data = Inl (KeyError k)"
    by (rule parse_semgrep_data_Inl [OF sp good k])
  have g: "\<forall>json_load render now fs json_file output_file contents.
              fs json_file = Some contents \<and> json_load contents = Inr data \<longrightarrow>
              generate_report json_load render now fs json_file output_file =
                (Inl (KeyError k), fs)"
    by (simp add: generate_report_def p)
  from sp good bad k missing_key_names [OF k] p g show ?thesis
    by (intro exI [of _ good] exI [of _ bad] exI [of _ rest] exI [of _ k]) simp
qed

theorem missing_required_field_aborts_witness:
  "missing_required (sample_no_message ''r2'' ''a.py'' 9 ''ERROR'') \<and>
   parse_semgrep_data
     (sample_data [sample_result ''r1'' ''b.py'' 3 ''INFO'',
                   sample_no_message ''r2'' ''a.py'' 9 ''ERROR'']) = Inl (KeyError ''message'') \<and>
   generate_report
     (\<lambda>contents. Inr (sample_data [sample_result ''r1'' ''b.py'' 3 ''INFO'',
                                      sample_no_message ''r2'' ''a.py'' 9 ''ERROR'']))
     (\<lambda>template_data. ''<html>'') ''2024-01-01'' [''scan.json'' \<mapsto> ''{}'']
     ''scan.json'' ''scan.html'' =
     (Inl (KeyError ''message''), [''scan.json'' \<mapsto> ''{}''])"
proof -
  let ?d = "sample_data [sample_result ''r1'' ''b.py'' 3 ''INFO'',
                         sample_no_message ''r2'' ''a.py'' 9 ''ERROR'']"
  have bad: "missing_required (sample_no_message ''r2'' ''a.py'' 9 ''ERROR'')"
    by (simp add: missing_required_def sample_no_message_def)
  have rs: "dict_get (data_results ?d) [] =
              [sample_result ''r1'' ''b.py'' 3 ''INFO'', sample_no_message ''r2'' ''a.py'' 9 ''ERROR'']"
    by (simp add: sample_data_def dict_get_def)
  have "\<exists>r \<in> set (dict_get (data_results ?d) []). missing_required r"
    unfolding rs using bad by simp
  from missing_required_field_aborts [OF this]
  obtain good b rest k where
    sp: "dict_get (data_results ?d) [] = good @ b # rest" and
    g: "\<forall>r \<in> set good. \<not> missing_required r" and b: "missing_required b" and
    k: "missing_key b = Some k" and
    p: "parse_semgrep_data ?d = Inl (KeyError k)" and
    gr: "\<forall>json_load render now fs json_file output_file contents.
              fs json_file = Some contents \<and> json_load contents = Inr ?d \<longrightarrow>
              generate_report json_load render now fs json_file output_file =
                (Inl (KeyError k), fs)"
    by blast
  have "b = sample_no_message ''r2'' ''a.py'' 9 ''ERROR''"
    using sp g b unfolding rs
    by (auto simp: append_eq_Cons_conv Cons_eq_append_conv sample_result_present)
  then have "k = ''message''"
    using k by (simp add: missing_key_def sample_no_message_def)
  with p gr bad show ?thesis by simp
qed

text \<open>
  C2, as stated, fails: the error does not identify the position of the offending record.
  A document whose first record lacks \<open>extra.message\<close> and one whose second record lacks
  it end with the same error value.
\<close>

theorem key_error_has_no_position:
  "missing_required (sample_no_message ''r2'' ''a.py'' 9 ''ERROR'') \<and>
   \<not> missing_required (sample_result ''r1'' ''b.py'' 3 ''INFO'') \<and>
   parse_semgrep_data
     (sample_data [sample_no_message ''r2'' ''a.py'' 9 ''ERROR'',
                   sample_result ''r1'' ''b.py'' 3 ''INFO'']) = Inl (KeyError ''message'') \<and>
   parse_semgrep_data
     (sample_data [sample_result ''r1'' ''b.py'' 3 ''INFO'',
                   sample_no_message ''r2'' ''a.py'' 9 ''ERROR'']) = Inl (KeyError ''message'')"
  by (simp add: missing_required_def sample_no_message_def sample_result_def sample_data_def
        parse_semgrep_data_def parse_finding_def getitem_def dict_get_def Let_def)

end
